theory Spec2Isabelle
  imports Complex_Main
begin

section \<open>JavaScript numbers\<close>

text \<open>
  A value of the TypeScript type \<open>number\<close> is either finite, one of the two infinities,
  or NaN. Finite values are modelled as exact reals: the operations of this section do
  not round, overflow or underflow, and zero has no sign (a zero divisor is the positive
  zero, which is the only zero the program can divide by: the radial distance \<open>r\<close> is a
  sum with a positive summand or a product of positive factors). The rounding of the
  binary64 format is a separate layer, defined further below and used where a property
  depends on it.
  The operations below follow the special-value rules of the language: NaN is absorbing,
  \<open>\<infinity> - \<infinity>\<close>, \<open>0 * \<infinity>\<close>, \<open>0 / 0\<close> and \<open>\<infinity> / \<infinity>\<close> are NaN, a nonzero finite value
  divided by zero is an infinity, the square root of a negative value is NaN, and every
  comparison with NaN is false.
\<close>

datatype number = Num (real_of: real) | PosInf | NegInf | NaN

instantiation number :: uminus
begin

fun uminus_number :: "number \<Rightarrow> number" where
  "uminus_number (Num a) = Num (- a)"
| "uminus_number PosInf = NegInf"
| "uminus_number NegInf = PosInf"
| "uminus_number NaN = NaN"

instance ..

end

instantiation number :: plus
begin

fun plus_number :: "number \<Rightarrow> number \<Rightarrow> number" where
  "plus_number NaN y = NaN"
| "plus_number x NaN = NaN"
| "plus_number PosInf NegInf = NaN"
| "plus_number NegInf PosInf = NaN"
| "plus_number PosInf y = PosInf"
| "plus_number x PosInf = PosInf"
| "plus_number NegInf y = NegInf"
| "plus_number x NegInf = NegInf"
| "plus_number (Num a) (Num b) = Num (a + b)"

instance ..

end

instantiation number :: minus
begin

definition minus_number :: "number \<Rightarrow> number \<Rightarrow> number" where
  "minus_number x y = x + (- y)"

instance ..

end

text \<open>The infinity with the sign of a finite value; a zero counts as positive.\<close>

definition inf_of_sign :: "real \<Rightarrow> number" where
  "inf_of_sign a = (if 0 \<le> a then PosInf else NegInf)"

instantiation number :: times
begin

fun times_number :: "number \<Rightarrow> number \<Rightarrow> number" where
  "times_number NaN y = NaN"
| "times_number x NaN = NaN"
| "times_number (Num a) (Num b) = Num (a * b)"
| "times_number (Num a) PosInf = (if a = 0 then NaN else inf_of_sign a)"
| "times_number (Num a) NegInf = (if a = 0 then NaN else inf_of_sign (- a))"
| "times_number PosInf (Num b) = (if b = 0 then NaN else inf_of_sign b)"
| "times_number NegInf (Num b) = (if b = 0 then NaN else inf_of_sign (- b))"
| "times_number PosInf PosInf = PosInf"
| "times_number PosInf NegInf = NegInf"
| "times_number NegInf PosInf = NegInf"
| "times_number NegInf NegInf = PosInf"

instance ..

end

instantiation number :: inverse
begin

fun divide_number :: "number \<Rightarrow> number \<Rightarrow> number" where
  "divide_number NaN y = NaN"
| "divide_number x NaN = NaN"
| "divide_number (Num a) (Num b) =
     (if b = 0 then (if a = 0 then NaN else inf_of_sign a) else Num (a / b))"
| "divide_number (Num a) PosInf = Num 0"
| "divide_number (Num a) NegInf = Num 0"
| "divide_number PosInf (Num b) = inf_of_sign b"
| "divide_number NegInf (Num b) = inf_of_sign (- b)"
| "divide_number PosInf y = NaN"
| "divide_number NegInf y = NaN"

definition inverse_number :: "number \<Rightarrow> number" where
  "inverse_number x = divide (Num 1) x"

instance ..

end

instantiation number :: ord
begin

fun less_eq_number :: "number \<Rightarrow> number \<Rightarrow> bool" where
  "less_eq_number NaN y = False"
| "less_eq_number x NaN = False"
| "less_eq_number (Num a) (Num b) = (a \<le> b)"
| "less_eq_number NegInf y = True"
| "less_eq_number x PosInf = True"
| "less_eq_number x NegInf = False"
| "less_eq_number PosInf y = False"

fun less_number :: "number \<Rightarrow> number \<Rightarrow> bool" where
  "less_number NaN y = False"
| "less_number x NaN = False"
| "less_number (Num a) (Num b) = (a < b)"
| "less_number PosInf y = False"
| "less_number x NegInf = False"
| "less_number NegInf y = True"
| "less_number x PosInf = True"

instance ..

end

fun Math_sqrt :: "number \<Rightarrow> number" where
  "Math_sqrt (Num a) = (if a < 0 then NaN else Num (sqrt a))"
| "Math_sqrt PosInf = PosInf"
| "Math_sqrt NegInf = NaN"
| "Math_sqrt NaN = NaN"

fun Math_abs :: "number \<Rightarrow> number" where
  "Math_abs (Num a) = Num \<bar>a\<bar>"
| "Math_abs PosInf = PosInf"
| "Math_abs NegInf = PosInf"
| "Math_abs NaN = NaN"

text \<open>\<open>Number.isFinite\<close>, which the display formatting of the component tests.\<close>

fun Number_isFinite :: "number \<Rightarrow> bool" where
  "Number_isFinite (Num a) = True"
| "Number_isFinite x = False"

definition Math_max :: "number \<Rightarrow> number \<Rightarrow> number" where
  "Math_max x y = (if x = NaN \<or> y = NaN then NaN else if x \<le> y then y else x)"

definition Math_min :: "number \<Rightarrow> number \<Rightarrow> number" where
  "Math_min x y = (if x = NaN \<or> y = NaN then NaN else if x \<le> y then x else y)"

section \<open>The physics module\<close>

definition G :: number where
  "G = Num (6.6743 / 10 ^ 11)"

definition C :: number where
  "C = Num 299792458"

definition M_SUN :: number where
  "M_SUN = Num (1.98847 * 10 ^ 30)"

definition R_SUN :: number where
  "R_SUN = Num (6.957 * 10 ^ 8)"

datatype BodyKind = normal | bh

text \<open>
  The optional field \<open>kind\<close> is an option. The display label \<open>name\<close> of a body is read by
  the rendering only and is left out of the record.
\<close>

record Body =
  id' :: string
  massKg :: number
  radiusM :: number
  kind :: "BodyKind option"

definition schwarzschildRadius :: "number \<Rightarrow> number" where
  "schwarzschildRadius m = (Num 2 * G * m) / (C * C)"

datatype Mode = surface | staticAltitude | circularOrbit

definition BODIES :: "Body list" where
  "BODIES =
    [\<lparr>id' = ''earth'', massKg = Num (5.972 * 10 ^ 24), radiusM = Num (6.371 * 10 ^ 6), kind = None\<rparr>,
     \<lparr>id' = ''moon'', massKg = Num (7.347673 * 10 ^ 22), radiusM = Num (1.7374 * 10 ^ 6), kind = None\<rparr>,
     \<lparr>id' = ''mars'', massKg = Num (6.4171 * 10 ^ 23), radiusM = Num (3.3895 * 10 ^ 6), kind = None\<rparr>,
     \<lparr>id' = ''venus'', massKg = Num (4.8675 * 10 ^ 24), radiusM = Num (6.0518 * 10 ^ 6), kind = None\<rparr>,
     \<lparr>id' = ''merc'', massKg = Num (3.3011 * 10 ^ 23), radiusM = Num (2.4397 * 10 ^ 6), kind = None\<rparr>,
     \<lparr>id' = ''jup'', massKg = Num (1.89813 * 10 ^ 27), radiusM = Num (6.9911 * 10 ^ 7), kind = None\<rparr>,
     \<lparr>id' = ''sun'', massKg = Num (1.98847 * 10 ^ 30), radiusM = Num (6.9634 * 10 ^ 8), kind = None\<rparr>,
     \<lparr>id' = ''ns'', massKg = Num 1.4 * M_SUN, radiusM = Num 12000, kind = None\<rparr>,
     \<lparr>id' = ''r136a1'', massKg = Num 200 * M_SUN, radiusM = Num 30 * R_SUN, kind = None\<rparr>,
     \<lparr>id' = ''bh10'', massKg = Num 10 * M_SUN, radiusM = Num 3000, kind = Some bh\<rparr>,
     \<lparr>id' = ''sgrA'', massKg = Num (4.3 * 10 ^ 6) * M_SUN, radiusM = Num 1000000, kind = Some bh\<rparr>]"

definition phi :: "number \<Rightarrow> number \<Rightarrow> number" where
  "phi m r = (- G * m) / r"

definition weakRate :: "number \<Rightarrow> number \<Rightarrow> number" where
  "weakRate phiVal v = Num 1 + phiVal / (C * C) - (v * v) / (Num 2 * C * C)"

definition circularOrbitSpeed :: "number \<Rightarrow> number \<Rightarrow> number" where
  "circularOrbitSpeed m r = Math_sqrt ((G * m) / r)"

definition schwarzschildStaticRate :: "number \<Rightarrow> number \<Rightarrow> number" where
  "schwarzschildStaticRate m r =
    (let x = (Num 2 * G * m) / (r * C * C)
     in if Num 1 \<le> x then Num 0 else Math_sqrt (Num 1 - x))"

section \<open>The comparison pipeline of the component\<close>

text \<open>
  The component \<open>App\<close> holds the inputs \<open>bodyId\<close>, \<open>mode\<close>, \<open>altKm\<close>, \<open>useExactStatic\<close>
  and \<open>rsMul\<close> as state and recomputes every quantity below on each render. Each
  memoised value is a function of the values it reads. The effect that runs after a black
  hole has been selected (it sets \<open>mode\<close> to \<open>staticAltitude\<close> and raises \<open>rsMul\<close> to at
  least \<open>2\<close>) only changes the inputs of later renders and is not part of the computation
  of one render; the state \<open>simple\<close> only switches the layout.
\<close>

definition isBH :: "Body \<Rightarrow> bool" where
  "isBH body = (kind body = Some bh)"

definition App_fEarth :: "Body \<Rightarrow> number" where
  "App_fEarth earth = weakRate (phi (massKg earth) (radiusM earth)) (Num 0)"

definition App_r :: "Body \<Rightarrow> Mode \<Rightarrow> number \<Rightarrow> number \<Rightarrow> number" where
  "App_r body mode altKm rsMul =
    (if isBH body then
       (let Rs = schwarzschildRadius (massKg body)
        in Rs * Math_max rsMul (Num 1.0001))
     else if mode = surface then radiusM body
     else radiusM body + altKm * Num 1000)"

definition App_v :: "Body \<Rightarrow> Mode \<Rightarrow> number \<Rightarrow> number" where
  "App_v body mode r =
    (if isBH body then Num 0
     else if mode = circularOrbit then circularOrbitSpeed (massKg body) r
     else Num 0)"

definition App_fBody :: "Body \<Rightarrow> number \<Rightarrow> number \<Rightarrow> bool \<Rightarrow> number" where
  "App_fBody body r v useExactStatic =
    (if isBH body then schwarzschildStaticRate (massKg body) r
     else if useExactStatic \<and> v = Num 0 then schwarzschildStaticRate (massKg body) r
     else weakRate (phi (massKg body) r) v)"

text \<open>The value of \<open>fBody\<close> as a function of the inputs it depends on.\<close>

definition fBody_of :: "Body \<Rightarrow> Mode \<Rightarrow> number \<Rightarrow> bool \<Rightarrow> number \<Rightarrow> number" where
  "fBody_of body mode altKm useExactStatic rsMul =
    (let r = App_r body mode altKm rsMul;
         v = App_v body mode r
     in App_fBody body r v useExactStatic)"

definition App_R :: "number \<Rightarrow> number \<Rightarrow> number" where
  "App_R fBody fEarth = fBody / fEarth"

definition App_perDay :: "number \<Rightarrow> number" where
  "App_perDay R = (R - Num 1) * Num 86400"

definition earth1s_to_body :: "number \<Rightarrow> number" where
  "earth1s_to_body R = R"

definition body1s_to_earth :: "number \<Rightarrow> number" where
  "body1s_to_earth R = (if R = Num 0 then PosInf else Num 1 / R)"

definition earth1h_to_body :: "number \<Rightarrow> number" where
  "earth1h_to_body R = R * Num 3600"

definition body1h_to_earth :: "number \<Rightarrow> number" where
  "body1h_to_earth R = (if R = Num 0 then PosInf else Num 3600 / R)"

definition hueShiftFromRatio :: "number \<Rightarrow> number" where
  "hueShiftFromRatio Ratio =
    (let d = Ratio - Num 1;
         s = Math_min (Num 1) (Math_sqrt (Math_abs d) * Num 20000)
     in (if Num 0 \<le> d then Num 1 else Num (- 1)) * s)"

text \<open>
  The values one render computes. A body id that is not in the catalog makes \<open>find\<close>
  return \<open>undefined\<close>, and reading \<open>kind\<close> of it throws.
\<close>

datatype error = TypeError

definition lookup :: "string \<Rightarrow> Body option" where
  "lookup bodyId = find (\<lambda>b. id' b = bodyId) BODIES"

record Outputs =
  out_r :: number
  out_v :: number
  out_fBody :: number
  out_fEarth :: number
  out_R :: number
  out_perDay :: number
  out_earth1s_to_body :: number
  out_body1s_to_earth :: number
  out_earth1h_to_body :: number
  out_body1h_to_earth :: number
  out_hueShift :: number

definition App :: "string \<Rightarrow> Mode \<Rightarrow> number \<Rightarrow> bool \<Rightarrow> number \<Rightarrow> error + Outputs" where
  "App bodyId mode altKm useExactStatic rsMul =
    (case lookup bodyId of
       None \<Rightarrow> Inl TypeError
     | Some body \<Rightarrow>
        (case lookup ''earth'' of
           None \<Rightarrow> Inl TypeError
         | Some earth \<Rightarrow>
            (let fEarth = App_fEarth earth;
                 r = App_r body mode altKm rsMul;
                 v = App_v body mode r;
                 fBody = App_fBody body r v useExactStatic;
                 R = App_R fBody fEarth
             in Inr \<lparr>out_r = r, out_v = v, out_fBody = fBody, out_fEarth = fEarth,
                      out_R = R, out_perDay = App_perDay R,
                      out_earth1s_to_body = earth1s_to_body R,
                      out_body1s_to_earth = body1s_to_earth R,
                      out_earth1h_to_body = earth1h_to_body R,
                      out_body1h_to_earth = body1h_to_earth R,
                      out_hueShift = hueShiftFromRatio R\<rparr>)))"

section \<open>Notions of the specification\<close>

text \<open>
  The data model requires a finite positive mass and a finite positive radius of every
  body.
\<close>

definition valid_body :: "Body \<Rightarrow> bool" where
  "valid_body body =
    (Num 0 < massKg body \<and> massKg body < PosInf \<and> Num 0 < radiusM body \<and> radiusM body < PosInf)"

text \<open>The quantity \<open>x = 2 G m / (r c\<^sup>2)\<close> of the specification, over the reals.\<close>

definition horizon_ratio :: "real \<Rightarrow> real \<Rightarrow> real" where
  "horizon_ratio m \<rho> = 2 * real_of G * m / (\<rho> * (real_of C)\<^sup>2)"

text \<open>
  The formula selection policy in the words of the specification: the exact static
  formula for a black hole, and for another body when the exact formula is requested and
  the speed is zero; the weak-field formula otherwise.
\<close>

datatype FormulaChoice = ExactStatic | WeakField

definition selectFormula :: "bool \<Rightarrow> bool \<Rightarrow> number \<Rightarrow> FormulaChoice" where
  "selectFormula blackHole requestedExact speed =
    (if blackHole then ExactStatic
     else if requestedExact \<and> speed = Num 0 then ExactStatic
     else WeakField)"

fun applyFormula :: "FormulaChoice \<Rightarrow> number \<Rightarrow> number \<Rightarrow> number \<Rightarrow> number" where
  "applyFormula ExactStatic m r v = schwarzschildStaticRate m r"
| "applyFormula WeakField m r v = weakRate (phi m r) v"

text \<open>The Schwarzschild radius \<open>2 G m / c\<^sup>2\<close> of the specification, over the reals.\<close>

definition rs_real :: "real \<Rightarrow> real" where
  "rs_real m = 2 * real_of G * m / (real_of C)\<^sup>2"

section \<open>Binary64 rounding\<close>

text \<open>
  Every arithmetic operation of the language returns the binary64 number nearest to the
  exact result, ties going to the even significand. \<open>rne\<close> rounds a real to the nearest
  integer, ties to even. \<open>b64_exp\<close> is the binary exponent of a value, not below the
  exponent \<open>-1022\<close> of the subnormal numbers, so that \<open>2 powi (b64_exp x - 52)\<close> is the
  spacing of the binary64 numbers around \<open>x\<close>. A result that rounds to \<open>2 ^ 1024\<close> or
  beyond is an infinity.
\<close>

definition rne :: "real \<Rightarrow> int" where
  "rne y =
    (let f = \<lfloor>y\<rfloor>; d = y - of_int f
     in if d < 1 / 2 then f else if 1 / 2 < d then f + 1 else if even f then f else f + 1)"

definition b64_exp :: "real \<Rightarrow> int" where
  "b64_exp x = max \<lfloor>log 2 \<bar>x\<bar>\<rfloor> (- 1022)"

definition b64_quant :: "real \<Rightarrow> real" where
  "b64_quant x = (let u = 2 powi (b64_exp x - 52) in of_int (rne (x / u)) * u)"

definition b64 :: "real \<Rightarrow> number" where
  "b64 x =
    (if x = 0 then Num 0
     else if 2 ^ 1024 \<le> \<bar>b64_quant x\<bar> then inf_of_sign x
     else Num (b64_quant x))"

fun round_number :: "number \<Rightarrow> number" where
  "round_number (Num a) = b64 a"
| "round_number x = x"

definition mul64 :: "number \<Rightarrow> number \<Rightarrow> number" where
  "mul64 x y = round_number (x * y)"

definition div64 :: "number \<Rightarrow> number \<Rightarrow> number" where
  "div64 x y = round_number (x / y)"

text \<open>
  \<open>schwarzschildRadius\<close> as the program evaluates it: the literals \<open>G\<close> and \<open>C\<close> are the
  binary64 numbers nearest to their decimal values, and the two products, the product
  \<open>C * C\<close> and the quotient are rounded in the order of the source expression
  \<open>(2 * G * massKg) / (C * C)\<close>.
\<close>

definition schwarzschildRadius_b64 :: "number \<Rightarrow> number" where
  "schwarzschildRadius_b64 m =
     div64 (mul64 (mul64 (Num 2) (round_number G)) m) (mul64 (round_number C) (round_number C))"

section \<open>Auxiliary facts\<close>

lemma valid_bodyD:
  assumes "valid_body body"
  obtains m \<rho> where "massKg body = Num m" "radiusM body = Num \<rho>" "0 < m" "0 < \<rho>"
proof -
  from assms have a: "Num 0 < massKg body" "massKg body < PosInf"
     and b: "Num 0 < radiusM body" "radiusM body < PosInf"
    by (simp_all add: valid_body_def)
  from a obtain m where "massKg body = Num m" "0 < m" by (cases "massKg body") auto
  moreover from b obtain \<rho> where "radiusM body = Num \<rho>" "0 < \<rho>" by (cases "radiusM body") auto
  ultimately show thesis using that by blast
qed

lemma BODIES_valid: "body \<in> set BODIES \<Longrightarrow> valid_body body"
  by (auto simp: BODIES_def valid_body_def M_SUN_def R_SUN_def)

lemma lookup_earth: "lookup ''earth'' = Some (BODIES ! 0)"
  by (simp add: lookup_def BODIES_def)

lemma lookup_bh10: "lookup ''bh10'' = Some (BODIES ! 9)"
  by (simp add: lookup_def BODIES_def)

lemma static_rate_Num:
  assumes "\<rho> \<noteq> 0"
  shows "schwarzschildStaticRate (Num m) (Num \<rho>) =
     (if 1 \<le> horizon_ratio m \<rho> then Num 0 else Num (sqrt (1 - horizon_ratio m \<rho>)))"
  using assms
  by (simp add: schwarzschildStaticRate_def Let_def G_def C_def minus_number_def
      power2_eq_square horizon_ratio_def)

lemma horizon_ratio_pos: "0 < m \<Longrightarrow> 0 < \<rho> \<Longrightarrow> 0 < horizon_ratio m \<rho>"
  by (simp add: horizon_ratio_def G_def C_def)

lemma hr_earth: "horizon_ratio (5.972 * 10 ^ 24) (6.371 * 10 ^ 6) < 1"
  by (simp add: horizon_ratio_def G_def C_def)

lemma hr_bh: "1 \<le> horizon_ratio (1.98847 * 10 ^ 31) 3000"
  by (simp add: horizon_ratio_def G_def C_def)

lemma schwarzschildRadius_Num: "schwarzschildRadius (Num m) = Num (rs_real m)"
  by (simp add: schwarzschildRadius_def rs_real_def G_def C_def power2_eq_square)

lemma rs_real_pos: "0 < m \<Longrightarrow> 0 < rs_real m"
  by (simp add: rs_real_def G_def C_def)

lemma horizon_ratio_rs: "0 < m \<Longrightarrow> k \<noteq> 0 \<Longrightarrow> horizon_ratio m (rs_real m * k) = 1 / k"
  by (simp add: horizon_ratio_def rs_real_def G_def C_def)

lemma Math_max_Num: "Math_max (Num a) (Num b) = Num (max a b)"
  by (simp add: Math_max_def max_def)

lemma Math_min_Num: "Math_min (Num a) (Num b) = Num (min a b)"
  by (simp add: Math_min_def min_def)

lemma App_r_bh:
  assumes "isBH body" and "massKg body = Num m"
  shows "App_r body mode altKm (Num \<mu>) = Num (rs_real m * max \<mu> 1.0001)"
  using assms by (simp add: App_r_def Let_def schwarzschildRadius_Num Math_max_Num)

lemma static_rate_bh:
  assumes "0 < m" and "1 < k"
  shows "schwarzschildStaticRate (Num m) (Num (rs_real m * k)) = Num (sqrt (1 - 1 / k))"
proof -
  from assms have nz: "rs_real m * k \<noteq> 0" using rs_real_pos [of m] by simp
  from assms have hr: "horizon_ratio m (rs_real m * k) = 1 / k"
    by (simp add: horizon_ratio_rs)
  from assms have "1 / k < 1" by simp
  then show ?thesis by (simp add: static_rate_Num [OF nz] hr)
qed

lemma App_fBody_bh:
  assumes "isBH body" and "massKg body = Num m" and "0 < m"
  shows "App_fBody body (App_r body mode altKm (Num \<mu>)) v e = Num (sqrt (1 - 1 / max \<mu> 1.0001))"
proof -
  define k :: real where "k = max \<mu> 1.0001"
  have k: "1 < k" by (simp add: k_def)
  have "App_fBody body (App_r body mode altKm (Num \<mu>)) v e
      = schwarzschildStaticRate (Num m) (Num (rs_real m * k))"
    using assms(1,2) by (simp only: App_fBody_def App_r_bh [OF assms(1,2)] k_def if_True)
  also have "\<dots> = Num (sqrt (1 - 1 / k))" by (rule static_rate_bh [OF assms(3) k])
  finally show ?thesis by (simp only: k_def)
qed

lemma fEarth_val:
  "App_fEarth (BODIES ! 0) =
     Num (1 - real_of G * (5.972 * 10 ^ 24) / (6.371 * 10 ^ 6) / (real_of C)\<^sup>2)"
  by (simp add: App_fEarth_def BODIES_def weakRate_def phi_def G_def C_def minus_number_def
      power2_eq_square)

lemma fEarth_pos: "Num 0 < App_fEarth (BODIES ! 0) \<and> App_fEarth (BODIES ! 0) < PosInf"
  by (simp add: fEarth_val G_def C_def)

lemma App_Inr:
  assumes "lookup bodyId = Some body"
  shows "\<exists>out. App bodyId mode altKm useExactStatic rsMul = Inr out \<and>
           out_r out = App_r body mode altKm rsMul \<and>
           out_v out = App_v body mode (App_r body mode altKm rsMul) \<and>
           out_fBody out = fBody_of body mode altKm useExactStatic rsMul \<and>
           out_fEarth out = App_fEarth (BODIES ! 0) \<and>
           out_R out = App_R (out_fBody out) (out_fEarth out) \<and>
           out_perDay out = App_perDay (out_R out) \<and>
           out_earth1s_to_body out = earth1s_to_body (out_R out) \<and>
           out_body1s_to_earth out = body1s_to_earth (out_R out) \<and>
           out_earth1h_to_body out = earth1h_to_body (out_R out) \<and>
           out_body1h_to_earth out = body1h_to_earth (out_R out) \<and>
           out_hueShift out = hueShiftFromRatio (out_R out)"
  using assms by (simp add: App_def Let_def lookup_earth fBody_of_def)

lemma number_div_self: "Num 0 < x \<Longrightarrow> x < PosInf \<Longrightarrow> x / x = Num 1"
  by (cases x) auto

lemma number_less_irrefl: "\<not> (x :: number) < x"
  by (cases x) simp_all

lemma isBH_earth: "\<not> isBH (BODIES ! 0)"
  by (simp add: isBH_def BODIES_def)

lemma isBH_bh10: "isBH (BODIES ! 9)"
  by (simp add: isBH_def BODIES_def)

lemma fBody_earth_surface: "fBody_of (BODIES ! 0) surface altKm False rsMul = App_fEarth (BODIES ! 0)"
  by (simp add: fBody_of_def Let_def App_fBody_def App_v_def App_r_def isBH_earth App_fEarth_def)

lemma earth_surface_R:
  "App_R (fBody_of (BODIES ! 0) surface altKm False rsMul) (App_fEarth (BODIES ! 0)) = Num 1"
  using fEarth_pos by (simp add: fBody_earth_surface App_R_def number_div_self)

lemma fBody_of_bh:
  assumes "isBH body" and "massKg body = Num m" and "0 < m"
  shows "fBody_of body mode altKm e (Num \<mu>) = Num (sqrt (1 - 1 / max \<mu> 1.0001))"
  unfolding fBody_of_def Let_def by (rule App_fBody_bh [OF assms])



lemma valid_earth: "valid_body (BODIES ! 0)"
  by (rule BODIES_valid) (simp add: BODIES_def)

lemma hueShift_Num:
  "hueShiftFromRatio (Num \<rho>) = Num (sgn (\<rho> - 1) * min 1 (sqrt \<bar>\<rho> - 1\<bar> * 20000))"
  by (simp add: hueShiftFromRatio_def Let_def minus_number_def Math_min_Num sgn_real_def)

lemma hueShift_PosInf: "hueShiftFromRatio PosInf = Num 1"
  by (simp add: hueShiftFromRatio_def Let_def minus_number_def Math_min_def inf_of_sign_def)

lemma hueShift_NegInf: "hueShiftFromRatio NegInf = Num (- 1)"
  by (simp add: hueShiftFromRatio_def Let_def minus_number_def Math_min_def inf_of_sign_def)

lemma hue_real_bounds:
  fixes \<rho> :: real
  shows "- 1 \<le> sgn (\<rho> - 1) * min 1 (sqrt \<bar>\<rho> - 1\<bar> * 20000)"
    and "sgn (\<rho> - 1) * min 1 (sqrt \<bar>\<rho> - 1\<bar> * 20000) \<le> 1"
proof -
  define s where "s = min 1 (sqrt \<bar>\<rho> - 1\<bar> * 20000)"
  have s: "0 \<le> s" "s \<le> 1" by (simp_all add: s_def)
  then show "- 1 \<le> sgn (\<rho> - 1) * min 1 (sqrt \<bar>\<rho> - 1\<bar> * 20000)"
    and "sgn (\<rho> - 1) * min 1 (sqrt \<bar>\<rho> - 1\<bar> * 20000) \<le> 1"
    unfolding s_def [symmetric] by (simp_all add: sgn_real_def)
qed

lemma lookup_mem: "lookup bodyId = Some body \<Longrightarrow> body \<in> set BODIES"
  by (auto simp: lookup_def find_Some_iff)

lemma code_x_Num:
  "\<rho> \<noteq> 0 \<Longrightarrow> (Num 2 * G * Num m) / (Num \<rho> * C * C) = Num (horizon_ratio m \<rho>)"
  by (simp add: G_def C_def power2_eq_square horizon_ratio_def)

lemma lookup_ns: "lookup ''ns'' = Some (BODIES ! 7)"
  by (simp add: lookup_def BODIES_def)

lemma hr_ns: "1 \<le> horizon_ratio (1.4 * (1.98847 * 10 ^ 30)) 2000"
  by (simp add: horizon_ratio_def G_def C_def)

lemma fBody_ns_inside:
  "fBody_of (BODIES ! 7) staticAltitude (Num (- 10)) True rsMul = Num 0"
proof -
  have nz: "(2000::real) \<noteq> 0" by simp
  have "fBody_of (BODIES ! 7) staticAltitude (Num (- 10)) True rsMul
      = schwarzschildStaticRate (Num (1.4 * (1.98847 * 10 ^ 30))) (Num 2000)"
    by (simp add: fBody_of_def Let_def App_fBody_def App_v_def App_r_def isBH_def BODIES_def
        M_SUN_def)
  also have "\<dots> = Num 0" using hr_ns by (simp only: static_rate_Num [OF nz] if_True)
  finally show ?thesis .
qed

lemma ns_inside_R:
  "App_R (fBody_of (BODIES ! 7) staticAltitude (Num (- 10)) True rsMul) (App_fEarth (BODIES ! 0))
     = Num 0"
  using fEarth_pos by (cases "App_fEarth (BODIES ! 0)") (auto simp: fBody_ns_inside App_R_def)

subsection \<open>Rounding to binary64\<close>

lemma rne_cases:
  "rne y = \<lfloor>y\<rfloor> \<or> rne y = \<lfloor>y\<rfloor> + 1"
  by (simp add: rne_def Let_def)

lemma rne_error: "\<bar>of_int (rne y) - y\<bar> \<le> 1 / 2"
  unfolding rne_def Let_def by (auto simp: abs_if) linarith+

lemma rne_eqI: "\<bar>y - of_int n\<bar> < 1 / 2 \<Longrightarrow> rne y = n"
proof -
  assume a: "\<bar>y - of_int n\<bar> < 1 / 2"
  have "\<bar>of_int (rne y) - of_int n :: real\<bar> < 1"
    using rne_error [of y] a by linarith
  then have "\<bar>rne y - n\<bar> < 1" by (metis of_int_diff of_int_abs of_int_less_1_iff)
  then show ?thesis by simp
qed

lemma rne_of_int: "rne (of_int n) = n"
  by (rule rne_eqI) simp

lemma rne_mono: "x \<le> y \<Longrightarrow> rne x \<le> rne y"
proof -
  assume xy: "x \<le> y"
  then have fl: "\<lfloor>x\<rfloor> \<le> \<lfloor>y\<rfloor>" by (rule floor_mono)
  show ?thesis
  proof (cases "\<lfloor>x\<rfloor> = \<lfloor>y\<rfloor>")
    case True
    with xy show ?thesis by (auto simp: rne_def Let_def)
  next
    case False
    with fl have "\<lfloor>x\<rfloor> + 1 \<le> \<lfloor>y\<rfloor>" by simp
    moreover have "rne x \<le> \<lfloor>x\<rfloor> + 1" using rne_cases [of x] by auto
    moreover have "\<lfloor>y\<rfloor> \<le> rne y" using rne_cases [of y] by auto
    ultimately show ?thesis by linarith
  qed
qed

lemma rne_ge: "of_int n \<le> y \<Longrightarrow> n \<le> rne y"
  using rne_mono [of "of_int n" y] by (simp add: rne_of_int)

lemma rne_le: "y \<le> of_int n \<Longrightarrow> rne y \<le> n"
  using rne_mono [of y "of_int n"] by (simp add: rne_of_int)

lemma two_powr_int: "(2::real) powr of_int e = 2 powi e"
  by (rule powr_real_of_int') simp_all

lemma floor_log2_eq:
  assumes "0 < x" and "2 powi e \<le> x" and "x < 2 powi (e + 1)"
  shows "\<lfloor>log 2 x\<rfloor> = e"
proof (rule floor_unique)
  have "2 powr of_int e \<le> x" using assms(2) by (simp only: two_powr_int)
  then show "of_int e \<le> log 2 x"
    using assms(1) by (simp add: le_log_iff)
  have "x < 2 powr of_int (e + 1)" using assms(3) by (simp only: two_powr_int)
  then have "log 2 x < of_int (e + 1)"
    using assms(1) by (simp add: log_less_iff)
  then show "log 2 x < of_int e + 1" by simp
qed

lemma floor_log2_bounds:
  assumes "0 < x"
  shows "2 powi \<lfloor>log 2 x\<rfloor> \<le> x" and "x < 2 powi (\<lfloor>log 2 x\<rfloor> + 1)"
proof -
  have "of_int \<lfloor>log 2 x\<rfloor> \<le> log 2 x" by simp
  then have "2 powr of_int \<lfloor>log 2 x\<rfloor> \<le> x"
    using assms by (simp only: le_log_iff [of 2 x, OF _ assms]) 
  then show "2 powi \<lfloor>log 2 x\<rfloor> \<le> x" by (simp only: two_powr_int)
  have "log 2 x < of_int (\<lfloor>log 2 x\<rfloor> + 1)" by simp
  then have "x < 2 powr of_int (\<lfloor>log 2 x\<rfloor> + 1)"
    using assms by (simp only: log_less_iff [of 2 x, OF _ assms])
  then show "x < 2 powi (\<lfloor>log 2 x\<rfloor> + 1)" by (simp only: two_powr_int)
qed


lemma b64_exp_pos_mono: "0 < x \<Longrightarrow> x \<le> y \<Longrightarrow> b64_exp x \<le> b64_exp y"
proof -
  assume a: "0 < x" "x \<le> y"
  then have "log 2 x \<le> log 2 y" by simp
  then have "\<lfloor>log 2 x\<rfloor> \<le> \<lfloor>log 2 y\<rfloor>" by (rule floor_mono)
  with a show ?thesis by (simp add: b64_exp_def)
qed

lemma b64_exp_upper: "0 < x \<Longrightarrow> x < 2 powi (b64_exp x + 1)"
proof -
  assume a: "0 < x"
  have "\<lfloor>log 2 x\<rfloor> + 1 \<le> b64_exp x + 1" using a by (simp add: b64_exp_def)
  then have "(2::real) powi (\<lfloor>log 2 x\<rfloor> + 1) \<le> 2 powi (b64_exp x + 1)"
    by (intro power_int_increasing) simp_all
  with floor_log2_bounds(2) [OF a] show ?thesis by linarith
qed

lemma b64_exp_lower: "0 < x \<Longrightarrow> - 1022 < b64_exp x \<Longrightarrow> 2 powi (b64_exp x) \<le> x"
proof -
  assume a: "0 < x" "- 1022 < b64_exp x"
  then have "b64_exp x = \<lfloor>log 2 x\<rfloor>" by (simp add: b64_exp_def max_def split: if_splits)
  with floor_log2_bounds(1) [OF a(1)] show ?thesis by simp
qed

lemma b64_exp_eq:
  assumes "- 1022 \<le> e" and "2 powi e \<le> x" and "x < 2 powi (e + 1)"
  shows "b64_exp x = e"
proof -
  have "0 < (2::real) powi e" by simp
  with assms(2) have pos: "0 < x" by linarith
  from floor_log2_eq [OF pos assms(2,3)] assms(1) pos show ?thesis
    by (simp add: b64_exp_def)
qed

lemma b64_quant_upper: "0 < x \<Longrightarrow> b64_quant x \<le> 2 powi (b64_exp x + 1)"
proof -
  assume a: "0 < x"
  define e where "e = b64_exp x"
  define u :: real where "u = 2 powi (e - 52)"
  have u: "0 < u" by (simp add: u_def)
  have "e + 1 = 53 + (e - 52)" by simp
  then have "(2::real) powi (e + 1) = 2 powi (53 + (e - 52))" by (rule arg_cong)
  also have "\<dots> = 2 powi 53 * 2 powi (e - 52)" by (rule power_int_add) simp
  finally have split: "(2::real) powi (e + 1) = of_int (2 ^ 53) * u" by (simp add: u_def)
  have "x < 2 powi (e + 1)" using b64_exp_upper [OF a] by (simp add: e_def)
  then have "x / u \<le> of_int (2 ^ 53)" using u by (simp add: split pos_divide_le_eq)
  then have "rne (x / u) \<le> 2 ^ 53" by (rule rne_le)
  then have "(of_int (rne (x / u)) :: real) \<le> of_int (2 ^ 53)" by (simp only: of_int_le_iff)
  then have "of_int (rne (x / u)) * u \<le> of_int (2 ^ 53) * u"
    using u by (simp only: mult_le_cancel_right_pos)
  then show ?thesis by (simp only: b64_quant_def Let_def e_def [symmetric] u_def [symmetric] split)
qed

lemma b64_quant_lower: "0 < x \<Longrightarrow> - 1022 < b64_exp x \<Longrightarrow> 2 powi (b64_exp x) \<le> b64_quant x"
proof -
  assume a: "0 < x" "- 1022 < b64_exp x"
  define e where "e = b64_exp x"
  define u :: real where "u = 2 powi (e - 52)"
  have u: "0 < u" by (simp add: u_def)
  have "e = 52 + (e - 52)" by simp
  then have "(2::real) powi e = 2 powi (52 + (e - 52))" by (rule arg_cong)
  also have "\<dots> = 2 powi 52 * 2 powi (e - 52)" by (rule power_int_add) simp
  finally have split: "(2::real) powi e = of_int (2 ^ 52) * u" by (simp add: u_def)
  have "2 powi e \<le> x" using b64_exp_lower [OF a] by (simp add: e_def)
  then have "of_int (2 ^ 52) \<le> x / u" using u by (simp add: split pos_le_divide_eq)
  then have "2 ^ 52 \<le> rne (x / u)" by (rule rne_ge)
  then have "(of_int (2 ^ 52) :: real) \<le> of_int (rne (x / u))" by (simp only: of_int_le_iff)
  then have "of_int (2 ^ 52) * u \<le> of_int (rne (x / u)) * u"
    using u by (simp only: mult_le_cancel_right_pos)
  then show ?thesis by (simp only: b64_quant_def Let_def e_def [symmetric] u_def [symmetric] split)
qed

lemma b64_quant_nonneg: "0 \<le> x \<Longrightarrow> 0 \<le> b64_quant x"
proof -
  assume a: "0 \<le> x"
  have "0 \<le> x / 2 powi (b64_exp x - 52)" using a by simp
  then have "0 \<le> rne (x / 2 powi (b64_exp x - 52))" using rne_ge [of 0] by simp
  then show ?thesis by (simp add: b64_quant_def Let_def)
qed

lemma b64_quant_mono:
  assumes "0 < x" and "x \<le> y"
  shows "b64_quant x \<le> b64_quant y"
proof (cases "b64_exp x = b64_exp y")
  case True
  define u :: real where "u = 2 powi (b64_exp y - 52)"
  have u: "0 < u" by (simp add: u_def)
  from assms(2) u have "x / u \<le> y / u" by (simp add: divide_right_mono)
  then have "rne (x / u) \<le> rne (y / u)" by (rule rne_mono)
  then have "(of_int (rne (x / u)) :: real) \<le> of_int (rne (y / u))" by (simp only: of_int_le_iff)
  then have "of_int (rne (x / u)) * u \<le> of_int (rne (y / u)) * u"
    using u by (simp only: mult_le_cancel_right_pos)
  then show ?thesis by (simp only: b64_quant_def Let_def True u_def)
next
  case False
  from assms have y: "0 < y" by linarith
  from b64_exp_pos_mono [OF assms] False have lt: "b64_exp x < b64_exp y" by simp
  have "- 1022 \<le> b64_exp x" by (simp add: b64_exp_def)
  with lt have big: "- 1022 < b64_exp y" by linarith
  have "b64_quant x \<le> 2 powi (b64_exp x + 1)" by (rule b64_quant_upper [OF assms(1)])
  also have "\<dots> \<le> 2 powi (b64_exp y)" using lt by (intro power_int_increasing) simp_all
  also have "\<dots> \<le> b64_quant y" by (rule b64_quant_lower [OF y big])
  finally show ?thesis .
qed

lemma rne_0: "rne 0 = 0"
  using rne_of_int [of 0] by simp

lemma b64_quant_0: "b64_quant 0 = 0"
  by (simp add: b64_quant_def Let_def rne_0)

lemma b64_Num_or_PosInf:
  assumes "0 \<le> x"
  shows "b64 x = Num (b64_quant x) \<and> b64_quant x < 2 ^ 1024 \<or>
         b64 x = PosInf \<and> 2 ^ 1024 \<le> b64_quant x"
proof (cases "x = 0")
  case True
  then show ?thesis by (simp add: b64_def b64_quant_0)
next
  case False
  with assms b64_quant_nonneg [OF assms] show ?thesis
    by (simp add: b64_def inf_of_sign_def not_le)
qed

lemma b64_mono:
  assumes "0 \<le> x" and "x \<le> y"
  shows "b64 x \<le> b64 y"
proof (cases "x = 0")
  case True
  from assms have "0 \<le> y" by linarith
  from b64_Num_or_PosInf [OF this] b64_quant_nonneg [OF this] show ?thesis
    by (auto simp: True b64_def)
next
  case False
  with assms have x: "0 < x" and y: "0 \<le> y" by linarith+
  from b64_quant_mono [OF x assms(2)] b64_Num_or_PosInf [OF assms(1)] b64_Num_or_PosInf [OF y]
  show ?thesis by auto
qed


lemma b64_eval:
  assumes "- 1022 \<le> e" and "2 powi e \<le> x" and "x < 2 powi (e + 1)"
    and "\<bar>x / 2 powi (e - 52) - of_int n\<bar> < 1 / 2"
    and "of_int n * 2 powi (e - 52) < (2 ^ 1024 :: real)"
  shows "b64 x = Num (of_int n * 2 powi (e - 52))"
proof -
  have "0 < (2::real) powi e" by simp
  with assms(2) have pos: "0 < x" by linarith
  have e: "b64_exp x = e" by (rule b64_exp_eq [OF assms(1-3)])
  have n: "rne (x / 2 powi (e - 52)) = n" by (rule rne_eqI [OF assms(4)])
  have q: "b64_quant x = of_int n * 2 powi (e - 52)"
    by (simp only: b64_quant_def Let_def e n)
  have "0 \<le> b64_quant x" using pos by (intro b64_quant_nonneg) simp
  with q assms(5) have "\<bar>b64_quant x\<bar> < 2 ^ 1024" by simp
  with pos show ?thesis by (simp add: b64_def q)
qed

lemma G_b64: "round_number G = Num (5163989502626508 / 2 ^ 86)"
  using b64_eval [of "- 34" "6.6743 / 10 ^ 11" 5163989502626508]
  by (simp add: G_def)

lemma C_b64: "round_number C = Num 299792458"
  using b64_eval [of 28 299792458 5029682823036928]
  by (simp add: C_def)

lemma two_G_b64: "mul64 (Num 2) (round_number G) = Num (5163989502626508 / 2 ^ 85)"
  using b64_eval [of "- 33" "2 * (5163989502626508 / 2 ^ 86)" 5163989502626508]
  by (simp add: mul64_def G_b64)

lemma CC_b64: "mul64 (round_number C) (round_number C) = Num (5617219867105110 * 2 ^ 4)"
  using b64_eval [of 56 "299792458 * 299792458" 5617219867105110]
  by (simp add: mul64_def C_b64)

lemma rs_b64_unfold:
  "schwarzschildRadius_b64 (Num m) =
     round_number (b64 (5163989502626508 / 2 ^ 85 * m) / Num (5617219867105110 * 2 ^ 4))"
  by (simp only: schwarzschildRadius_b64_def two_G_b64 CC_b64) (simp add: div64_def mul64_def)


lemma t2_three_b64:
  "b64 (5163989502626508 / 2 ^ 85 * 3) = Num (7745984253939762 / 2 ^ 84)"
  using b64_eval [of "- 32" "5163989502626508 / 2 ^ 85 * 3" 7745984253939762]
  by simp

lemma t2_three_succ_b64:
  "b64 (5163989502626508 / 2 ^ 85 * (3 + 1 / 2 ^ 51)) = Num (7745984253939763 / 2 ^ 84)"
  using b64_eval [of "- 32" "5163989502626508 / 2 ^ 85 * (3 + 1 / 2 ^ 51)" 7745984253939763]
  by simp

lemma t3_three_b64:
  "b64 (7745984253939762 / 2 ^ 84 / (5617219867105110 * 2 ^ 4)) = Num (6210334048690011 / 2 ^ 140)"
  using b64_eval [of "- 88" "7745984253939762 / 2 ^ 84 / (5617219867105110 * 2 ^ 4)" 6210334048690011]
  by simp

lemma t3_three_succ_b64:
  "b64 (7745984253939763 / 2 ^ 84 / (5617219867105110 * 2 ^ 4)) = Num (6210334048690011 / 2 ^ 140)"
  using b64_eval [of "- 88" "7745984253939763 / 2 ^ 84 / (5617219867105110 * 2 ^ 4)" 6210334048690011]
  by simp

lemma rs_b64_three: "schwarzschildRadius_b64 (Num 3) = Num (6210334048690011 / 2 ^ 140)"
  using t2_three_b64 t3_three_b64 by (simp add: rs_b64_unfold)

lemma rs_b64_three_succ:
  "schwarzschildRadius_b64 (Num (3 + 1 / 2 ^ 51)) = Num (6210334048690011 / 2 ^ 140)"
  using t2_three_succ_b64 t3_three_succ_b64 by (simp add: rs_b64_unfold)

lemma rs_b64_mono:
  assumes "0 \<le> m1" and "m1 \<le> m2"
  shows "schwarzschildRadius_b64 (Num m1) \<le> schwarzschildRadius_b64 (Num m2)"
proof -
  define g :: real where "g = 5163989502626508 / 2 ^ 85"
  define c :: real where "c = 5617219867105110 * 2 ^ 4"
  have g: "0 < g" and c: "0 < c" by (simp_all add: g_def c_def)
  have le: "0 \<le> g * m1" "g * m1 \<le> g * m2" "0 \<le> g * m2"
    using assms g by (simp_all add: mult_left_mono)
  have step: "round_number (b64 x / Num c) \<le> round_number (b64 y / Num c)"
    if "0 \<le> x" "x \<le> y" for x y
  proof -
    from that have y: "0 \<le> y" by linarith
    from b64_Num_or_PosInf [OF that(1)] b64_Num_or_PosInf [OF y]
      b64_quant_nonneg [OF that(1)] b64_quant_nonneg [OF y] b64_mono [OF that]
    show ?thesis
    proof (elim disjE conjE)
      assume x: "b64 x = Num (b64_quant x)" and y: "b64 y = Num (b64_quant y)"
        and "b64 x \<le> b64 y" and nn: "0 \<le> b64_quant x"
      then have "b64_quant x / c \<le> b64_quant y / c" using c by (simp add: divide_right_mono)
      moreover have "0 \<le> b64_quant x / c" using nn c by simp
      ultimately have "b64 (b64_quant x / c) \<le> b64 (b64_quant y / c)" by (intro b64_mono)
      then show ?thesis using c by (simp add: x y)
    next
      assume x: "b64 x = Num (b64_quant x)" and y: "b64 y = PosInf" and nn: "0 \<le> b64_quant x"
      have "0 \<le> b64_quant x / c" using nn c by simp
      from b64_Num_or_PosInf [OF this] show ?thesis
        using c by (auto simp: x y inf_of_sign_def)
    next
      assume "b64 x = PosInf" "b64 y = Num (b64_quant y)" "b64 x \<le> b64 y"
      then show ?thesis by simp
    next
      assume "b64 x = PosInf" "b64 y = PosInf"
      then show ?thesis using c by (simp add: inf_of_sign_def)
    qed
  qed
  show ?thesis
    unfolding rs_b64_unfold g_def [symmetric] c_def [symmetric] by (rule step [OF le(1,2)])
qed


lemma b64_rel_error:
  assumes "2 powi (- 1022) \<le> x" and "x < 2 ^ 1023"
  shows "\<exists>q. b64 x = Num q \<and> \<bar>q - x\<bar> \<le> x / 2 ^ 53"
proof -
  have "0 < (2::real) powi (- 1022)" by (rule zero_less_power_int) simp
  with assms(1) have pos: "0 < x" by linarith
  define e where "e = \<lfloor>log 2 x\<rfloor>"
  have lo: "2 powi e \<le> x" and hi: "x < 2 powi (e + 1)"
    using floor_log2_bounds [OF pos] by (simp_all add: e_def)
  have e_lo: "- 1022 \<le> e"
  proof (rule ccontr)
    assume "\<not> - 1022 \<le> e"
    then have "e + 1 \<le> - 1022" by simp
    then have "(2::real) powi (e + 1) \<le> 2 powi (- 1022)" by (intro power_int_increasing) simp_all
    with hi assms(1) show False by linarith
  qed
  have e_hi: "e \<le> 1022"
  proof (rule ccontr)
    assume "\<not> e \<le> 1022"
    then have "1023 \<le> e" by simp
    then have "(2::real) powi 1023 \<le> 2 powi e" by (intro power_int_increasing) simp_all
    with lo assms(2) show False by simp
  qed
  have ex: "b64_exp x = e" using e_lo pos by (simp add: b64_exp_def e_def)
  define u :: real where "u = 2 powi (e - 52)"
  have u: "0 < u" by (simp add: u_def)
  define q where "q = b64_quant x"
  have q: "q = of_int (rne (x / u)) * u" by (simp only: q_def b64_quant_def Let_def ex u_def)
  have "q - x = (of_int (rne (x / u)) - x / u) * u" using u by (simp add: q field_simps)
  then have "\<bar>q - x\<bar> = \<bar>of_int (rne (x / u)) - x / u\<bar> * u" using u by (simp add: abs_mult)
  also have "\<dots> \<le> 1 / 2 * u" using rne_error [of "x / u"] u by (intro mult_right_mono) simp_all
  also have "\<dots> = 2 powi e / 2 ^ 53"
  proof -
    have "e = 52 + (e - 52)" by simp
    then have "(2::real) powi e = 2 powi (52 + (e - 52))" by (rule arg_cong)
    also have "\<dots> = 2 powi 52 * 2 powi (e - 52)" by (rule power_int_add) simp
    finally show ?thesis by (simp add: u_def)
  qed
  also have "\<dots> \<le> x / 2 ^ 53" using lo by (simp add: divide_right_mono)
  finally have err: "\<bar>q - x\<bar> \<le> x / 2 ^ 53" .
  have "q \<le> 2 powi (e + 1)" using b64_quant_upper [OF pos] by (simp add: q_def ex)
  also have "\<dots> \<le> 2 powi 1023" using e_hi by (intro power_int_increasing) simp_all
  also have "\<dots> < (2::real) ^ 1024" by simp
  finally have "q < 2 ^ 1024" .
  moreover have "0 \<le> q" unfolding q_def using pos by (intro b64_quant_nonneg) simp
  ultimately have "b64 x = Num q" using pos by (simp add: b64_def q_def)
  with err show ?thesis by blast
qed

lemma rs_b64_accurate:
  assumes "1 \<le> m" and "m \<le> 10 ^ 40"
  shows "\<exists>\<rho>. schwarzschildRadius_b64 (Num m) = Num \<rho> \<and>
           \<bar>\<rho> - 2 * real_of G * m / (real_of C)\<^sup>2\<bar> \<le> 2 * real_of G * m / (real_of C)\<^sup>2 / 2 ^ 50"
proof -
  define g :: real where "g = 5163989502626508 / 2 ^ 85"
  define c :: real where "c = 5617219867105110 * 2 ^ 4"
  define R0 :: real where "R0 = 2 * real_of G / (real_of C)\<^sup>2"
  define u :: real where "u = 1 / 2 ^ 53"
  have g: "0 < g" and c: "0 < c" and R0: "0 < R0" and u: "0 < u" "u < 1"
    by (simp_all add: g_def c_def R0_def u_def G_def C_def)
  have m: "0 < m" using assms(1) by linarith
  have a_lo: "2 powi (- 1022) \<le> g * m"
  proof -
    have "(2::real) powi (- 1022) \<le> g" by (simp add: g_def)
    also have "\<dots> \<le> g * m" using g assms(1) by simp
    finally show ?thesis .
  qed
  have a_hi: "g * m < 2 ^ 1023"
  proof -
    have "g * m \<le> g * 10 ^ 40" using g assms(2) by simp
    also have "\<dots> < 2 ^ 1023" by (simp add: g_def)
    finally show ?thesis .
  qed
  from b64_rel_error [OF a_lo a_hi] obtain q2 where q2: "b64 (g * m) = Num q2"
    and e2: "\<bar>q2 - g * m\<bar> \<le> g * m * u" by (auto simp: u_def)
  have q2_lo: "g * m * (1 - u) \<le> q2" and q2_hi: "q2 \<le> g * m * (1 + u)"
    using e2 by (simp_all add: algebra_simps abs_le_iff)
  have gm: "0 < g * m" using g m by simp
  have q2_pos: "0 < q2"
  proof -
    have "0 < g * m * (1 - u)" using gm u by simp
    with q2_lo show ?thesis by linarith
  qed
  have b_lo: "2 powi (- 1022) \<le> q2 / c"
  proof -
    have "(2::real) powi (- 1022) \<le> g * (1 - u) / c" by (simp add: g_def c_def u_def)
    also have "\<dots> \<le> g * m * (1 - u) / c"
      using g c u assms(1) by (intro divide_right_mono mult_right_mono) simp_all
    also have "\<dots> \<le> q2 / c" using q2_lo c by (simp add: divide_right_mono)
    finally show ?thesis .
  qed
  have b_hi: "q2 / c < 2 ^ 1023"
  proof -
    have "q2 / c \<le> g * m * (1 + u) / c" using q2_hi c by (simp add: divide_right_mono)
    also have "\<dots> \<le> g * 10 ^ 40 * (1 + u) / c"
      using g c u assms(2) by (intro divide_right_mono mult_right_mono mult_left_mono) simp_all
    also have "\<dots> < 2 ^ 1023" by (simp add: g_def c_def u_def)
    finally show ?thesis .
  qed
  define b where "b = q2 / c"
  from b64_rel_error [OF b_lo b_hi] obtain q3 where q3: "b64 (q2 / c) = Num q3"
    and e3: "\<bar>q3 - b\<bar> \<le> b * u" by (auto simp: u_def b_def)
  have "b * (1 - u) \<le> q3" and "q3 \<le> b * (1 + u)"
    using e3 by (simp_all add: algebra_simps abs_le_iff)
  then have q3_lo: "q2 / c * (1 - u) \<le> q3" and q3_hi: "q3 \<le> q2 / c * (1 + u)"
    by (simp_all only: b_def)
  have val: "schwarzschildRadius_b64 (Num m) = Num q3"
    unfolding rs_b64_unfold g_def [symmetric] c_def [symmetric]
    using c by (simp add: q2 q3)
  have K_hi: "g / c * (1 + u) * (1 + u) \<le> R0 * (1 + 1 / 2 ^ 50)"
    by (simp add: g_def c_def u_def R0_def G_def C_def)
  have K_lo: "R0 * (1 - 1 / 2 ^ 50) \<le> g / c * (1 - u) * (1 - u)"
    by (simp add: g_def c_def u_def R0_def G_def C_def)
  have "q3 \<le> q2 / c * (1 + u)" by (rule q3_hi)
  also have "\<dots> \<le> g * m * (1 + u) / c * (1 + u)"
    using q2_hi c u by (intro mult_right_mono divide_right_mono) simp_all
  also have "\<dots> = m * (g / c * (1 + u) * (1 + u))" by simp
  also have "\<dots> \<le> m * (R0 * (1 + 1 / 2 ^ 50))" using K_hi m by (intro mult_left_mono) simp_all
  finally have up: "q3 \<le> m * R0 + m * R0 / 2 ^ 50" by (simp add: algebra_simps)
  have "m * (R0 * (1 - 1 / 2 ^ 50)) \<le> m * (g / c * (1 - u) * (1 - u))"
    using K_lo m by (intro mult_left_mono) simp_all
  also have "\<dots> = g * m * (1 - u) / c * (1 - u)" by simp
  also have "\<dots> \<le> q2 / c * (1 - u)"
    using q2_lo c u by (intro mult_right_mono divide_right_mono) simp_all
  also have "\<dots> \<le> q3" by (rule q3_lo)
  finally have dn: "m * R0 - m * R0 / 2 ^ 50 \<le> q3" by (simp add: algebra_simps)
  have eq: "2 * real_of G * m / (real_of C)\<^sup>2 = m * R0" by (simp add: R0_def)
  define d where "d = m * R0 / 2 ^ 50"
  from up dn have "q3 \<le> m * R0 + d" and "m * R0 - d \<le> q3" by (simp_all only: d_def)
  then have "\<bar>q3 - m * R0\<bar> \<le> d" by linarith
  then have "\<bar>q3 - m * R0\<bar> \<le> m * R0 / 2 ^ 50" by (simp only: d_def)
  with val show ?thesis unfolding eq by blast
qed

subsection \<open>Further facts of the pipeline\<close>


lemma number_plus_NaN: "x + NaN = NaN"
  by (cases x) simp_all

lemma fBody_earth_below_centre:
  "fBody_of (BODIES ! 0) circularOrbit (Num (- 7000)) False rsMul = NaN"
proof -
  have r: "App_r (BODIES ! 0) circularOrbit (Num (- 7000)) rsMul = Num (- 629000)"
    by (simp add: App_r_def isBH_earth) (simp add: BODIES_def)
  have v: "App_v (BODIES ! 0) circularOrbit (Num (- 629000)) = NaN"
    by (simp add: App_v_def isBH_earth circularOrbitSpeed_def) (simp add: BODIES_def G_def)
  show ?thesis
    by (simp add: fBody_of_def Let_def r v App_fBody_def isBH_earth weakRate_def
        minus_number_def number_plus_NaN)
qed

lemma hueShift_NaN: "hueShiftFromRatio NaN = NaN"
  by (simp add: hueShiftFromRatio_def Let_def minus_number_def Math_min_def)

section \<open>The exact static rate\<close>

text \<open>
  Claim C1. For every mass \<open>m > 0\<close> and radius \<open>r > 0\<close>, with \<open>x = 2 G m / (r c\<^sup>2)\<close>:
  \<open>schwarzschildStaticRate m r\<close> is exactly \<open>0\<close> when \<open>x \<ge> 1\<close>, and otherwise it is
  \<open>sqrt (1 - x)\<close>, a value in \<open>(0, 1]\<close>.
\<close>

theorem static_rate_zero_or_sqrt:
  assumes "0 < m" and "0 < \<rho>"
  shows "(1 \<le> horizon_ratio m \<rho> \<longrightarrow> schwarzschildStaticRate (Num m) (Num \<rho>) = Num 0) \<and>
         (horizon_ratio m \<rho> < 1 \<longrightarrow>
            schwarzschildStaticRate (Num m) (Num \<rho>) = Num (sqrt (1 - horizon_ratio m \<rho>)) \<and>
            Num 0 < schwarzschildStaticRate (Num m) (Num \<rho>) \<and>
            schwarzschildStaticRate (Num m) (Num \<rho>) \<le> Num 1)"
proof -
  from assms have nz: "\<rho> \<noteq> 0" by simp
  from assms have pos: "0 < horizon_ratio m \<rho>" by (rule horizon_ratio_pos)
  show ?thesis using pos by (simp add: static_rate_Num [OF nz])
qed

text \<open>
  At the mass and radius of the Earth the ratio is below one; at ten solar masses and a
  radius of three kilometres the observer is inside the horizon.
\<close>

theorem static_rate_zero_or_sqrt_witness:
  "schwarzschildStaticRate (Num (5.972 * 10 ^ 24)) (Num (6.371 * 10 ^ 6))
     = Num (sqrt (1 - horizon_ratio (5.972 * 10 ^ 24) (6.371 * 10 ^ 6))) \<and>
   Num 0 < schwarzschildStaticRate (Num (5.972 * 10 ^ 24)) (Num (6.371 * 10 ^ 6)) \<and>
   schwarzschildStaticRate (Num (1.98847 * 10 ^ 31)) (Num 3000) = Num 0"
proof -
  have a: "(0::real) < 5.972 * 10 ^ 24" and b: "(0::real) < 6.371 * 10 ^ 6"
    and c: "(0::real) < 1.98847 * 10 ^ 31" and d: "(0::real) < 3000" by simp_all
  show ?thesis
    using static_rate_zero_or_sqrt [OF a b] static_rate_zero_or_sqrt [OF c d] hr_earth hr_bh
    by blast
qed

section \<open>The Schwarzschild radius\<close>

text \<open>
  Claim C6, as stated, has \<open>schwarzschildRadius\<close> equal to \<open>2 G m / c\<^sup>2\<close> exactly and
  strictly increasing in the mass. In binary64 the masses \<open>3\<close> and \<open>3 + 2\<^sup>-\<^sup>5\<^sup>1\<close>, which are
  neighbouring binary64 numbers, have the same Schwarzschild radius.
\<close>

theorem schwarzschildRadius_ties_at_neighbouring_masses:
  "(0::real) < 3 \<and> (3::real) < 3 + 1 / 2 ^ 51 \<and>
   schwarzschildRadius_b64 (Num 3) = schwarzschildRadius_b64 (Num (3 + 1 / 2 ^ 51)) \<and>
   \<not> schwarzschildRadius_b64 (Num 3) < schwarzschildRadius_b64 (Num (3 + 1 / 2 ^ 51))"
proof -
  have a: "(0::real) < 3" and b: "(3::real) < 3 + 1 / 2 ^ 51" by simp_all
  have c: "schwarzschildRadius_b64 (Num 3) = schwarzschildRadius_b64 (Num (3 + 1 / 2 ^ 51))"
    by (simp only: rs_b64_three rs_b64_three_succ)
  have d: "\<not> schwarzschildRadius_b64 (Num 3) < schwarzschildRadius_b64 (Num (3 + 1 / 2 ^ 51))"
    unfolding c by (rule number_less_irrefl)
  from a b c d show ?thesis by (intro conjI)
qed

text \<open>
  Claim C6, amended. For all masses \<open>0 < m1 \<le> m2\<close> the Schwarzschild radius of \<open>m1\<close> is at
  most that of \<open>m2\<close>: the function is monotonically increasing, not strictly. For every
  mass from \<open>1\<close> to \<open>10\<^sup>4\<^sup>0\<close> kilograms the result is a finite number that differs from
  \<open>2 G m / c\<^sup>2\<close> by at most the fraction \<open>2\<^sup>-\<^sup>5\<^sup>0\<close> of it.
\<close>

theorem schwarzschildRadius_monotone_and_accurate:
  assumes "0 < m1" and "m1 \<le> m2"
  shows "schwarzschildRadius_b64 (Num m1) \<le> schwarzschildRadius_b64 (Num m2) \<and>
         (1 \<le> m1 \<and> m1 \<le> 10 ^ 40 \<longrightarrow>
            (\<exists>\<rho>. schwarzschildRadius_b64 (Num m1) = Num \<rho> \<and>
               \<bar>\<rho> - 2 * real_of G * m1 / (real_of C)\<^sup>2\<bar>
                 \<le> 2 * real_of G * m1 / (real_of C)\<^sup>2 / 2 ^ 50))"
proof -
  from assms(1) have "0 \<le> m1" by simp
  then have "schwarzschildRadius_b64 (Num m1) \<le> schwarzschildRadius_b64 (Num m2)"
    using assms(2) by (rule rs_b64_mono)
  then show ?thesis using rs_b64_accurate [of m1] by blast
qed

theorem schwarzschildRadius_monotone_and_accurate_witness:
  "(0::real) < 5.972 * 10 ^ 24 \<and> (5.972 * 10 ^ 24 :: real) \<le> 1.98847 * 10 ^ 30 \<and>
   (1::real) \<le> 5.972 * 10 ^ 24 \<and> (5.972 * 10 ^ 24 :: real) \<le> 10 ^ 40 \<and>
   schwarzschildRadius_b64 (Num (5.972 * 10 ^ 24))
     \<le> schwarzschildRadius_b64 (Num (1.98847 * 10 ^ 30)) \<and>
   (\<exists>\<rho>. schwarzschildRadius_b64 (Num (5.972 * 10 ^ 24)) = Num \<rho> \<and>
      \<bar>\<rho> - 2 * real_of G * (5.972 * 10 ^ 24) / (real_of C)\<^sup>2\<bar>
        \<le> 2 * real_of G * (5.972 * 10 ^ 24) / (real_of C)\<^sup>2 / 2 ^ 50)"
proof -
  have a: "(0::real) < 5.972 * 10 ^ 24" and b: "(5.972 * 10 ^ 24 :: real) \<le> 1.98847 * 10 ^ 30"
    and c: "(1::real) \<le> 5.972 * 10 ^ 24" and d: "(5.972 * 10 ^ 24 :: real) \<le> 10 ^ 40"
    by simp_all
  show ?thesis
    using schwarzschildRadius_monotone_and_accurate [OF a b] a b c d by blast
qed

section \<open>The formula selection\<close>

text \<open>
  Claim C2. For every body of the catalog, mode, altitude, multiplier and request of the
  exact formula, the local rate \<open>fBody\<close> of a render is the exact static rate exactly when
  the body is a black hole, or is not one while the exact formula is requested and the
  resolved speed is zero; in every other case it is the weak-field rate of the potential
  and the speed of the resolved state.
\<close>

theorem fBody_follows_selection_policy:
  assumes "lookup bodyId = Some body"
    and "App bodyId mode altKm useExactStatic rsMul = Inr out"
  shows "out_fBody out =
           applyFormula (selectFormula (isBH body) useExactStatic (out_v out))
             (massKg body) (out_r out) (out_v out)"
  using assms
  by (auto simp: App_def Let_def lookup_earth App_fBody_def selectFormula_def)

theorem fBody_follows_selection_policy_witness:
  "\<exists>out. App ''earth'' circularOrbit (Num 20200) True (Num 2.5) = Inr out \<and>
     out_fBody out =
           applyFormula (selectFormula (isBH (BODIES ! 0)) True (out_v out))
             (massKg (BODIES ! 0)) (out_r out) (out_v out)"
proof -
  from App_Inr [OF lookup_earth, of circularOrbit "Num 20200" True "Num 2.5"]
  obtain out where out: "App ''earth'' circularOrbit (Num 20200) True (Num 2.5) = Inr out"
    by blast
  from fBody_follows_selection_policy [OF lookup_earth out] out show ?thesis by blast
qed

section \<open>The observer state of a black hole\<close>

text \<open>
  Claim C3, as stated, lets every multiplier above \<open>1\<close> through unchanged. The multiplier
  \<open>1.00005\<close> of the ten-solar-mass black hole is above \<open>1\<close> and is not used as given.
\<close>

theorem bh_multiplier_just_above_one_is_raised:
  "isBH (BODIES ! 9) \<and> (1::real) < 1.00005 \<and>
   App_r (BODIES ! 9) staticAltitude (Num 0) (Num 1.00005) \<noteq>
     schwarzschildRadius (massKg (BODIES ! 9)) * Num 1.00005"
  by (simp add: isBH_bh10 App_r_def Let_def Math_max_Num)
    (simp add: BODIES_def M_SUN_def schwarzschildRadius_def G_def C_def)

text \<open>
  Claim C3, amended. For every black hole and every multiplier, the resolved radius is
  the Schwarzschild radius times the multiplier raised to at least \<open>1.0001\<close>: a multiplier
  of at most \<open>1.0001\<close> becomes \<open>1.0001\<close>, a larger one is used as given. The resolved speed
  is exactly \<open>0\<close>.
\<close>

theorem bh_radius_clamped_and_static:
  assumes "isBH body"
  shows "App_r body mode altKm (Num \<mu>) =
           schwarzschildRadius (massKg body) * Num (if \<mu> \<le> 1.0001 then 1.0001 else \<mu>) \<and>
         App_v body mode (App_r body mode altKm (Num \<mu>)) = Num 0"
  using assms by (simp add: App_r_def App_v_def Let_def Math_max_Num max_def)

theorem bh_radius_clamped_and_static_witness:
  "isBH (BODIES ! 9) \<and>
   App_r (BODIES ! 9) staticAltitude (Num 0) (Num 0.5) =
           schwarzschildRadius (massKg (BODIES ! 9)) * Num 1.0001 \<and>
   App_v (BODIES ! 9) staticAltitude (App_r (BODIES ! 9) staticAltitude (Num 0) (Num 0.5)) = Num 0"
proof -
  have a: "(if (0.5::real) \<le> 1.0001 then 1.0001 else 0.5) = (1.0001::real)" by simp
  show ?thesis
    using bh_radius_clamped_and_static [OF isBH_bh10, of staticAltitude "Num 0" "0.5"] isBH_bh10
    unfolding a by blast
qed

section \<open>The Earth compared with itself\<close>

text \<open>
  Claim C4. The Earth in surface mode, the exact formula not requested: \<open>fBody\<close> and
  \<open>fEarth\<close> are the same value, the ratio \<open>R\<close> is exactly \<open>1\<close> and the seconds per day are
  exactly \<open>0\<close>, whatever the altitude and multiplier inputs hold.
\<close>

theorem earth_surface_ratio_is_one:
  "\<exists>out. App ''earth'' surface altKm False rsMul = Inr out \<and>
     out_fBody out = out_fEarth out \<and> out_R out = Num 1 \<and> out_perDay out = Num 0"
proof -
  from App_Inr [OF lookup_earth, of surface altKm False rsMul]
  obtain out where out: "App ''earth'' surface altKm False rsMul = Inr out"
    and fb: "out_fBody out = fBody_of (BODIES ! 0) surface altKm False rsMul"
    and fe: "out_fEarth out = App_fEarth (BODIES ! 0)"
    and R: "out_R out = App_R (out_fBody out) (out_fEarth out)"
    and pd: "out_perDay out = App_perDay (out_R out)"
    by blast
  from fb fe have same: "out_fBody out = out_fEarth out" by (simp add: fBody_earth_surface)
  from R fb fe have one: "out_R out = Num 1" by (simp add: earth_surface_R)
  with pd have "out_perDay out = Num 0" by (simp add: App_perDay_def minus_number_def)
  with out same one show ?thesis by blast
qed

theorem earth_surface_ratio_is_one_witness:
  "\<exists>out. App ''earth'' surface (Num 0) False (Num 2.5) = Inr out \<and>
     out_fBody out = out_fEarth out \<and> out_R out = Num 1 \<and> out_perDay out = Num 0"
  by (rule earth_surface_ratio_is_one)

section \<open>The time conversions\<close>

text \<open>
  Claim C5. In every result of a render, the body second in Earth seconds is
  \<open>1 / earthSecondInBody\<close> when \<open>R \<noteq> 0\<close> and \<open>+\<infinity>\<close> when \<open>R = 0\<close>; the Earth hour in body
  seconds is \<open>R * 3600\<close>, and the body hour in Earth seconds is \<open>3600 / R\<close> when \<open>R \<noteq> 0\<close> and
  \<open>+\<infinity>\<close> when \<open>R = 0\<close>.
\<close>

theorem inverse_time_conversions:
  assumes "App bodyId mode altKm useExactStatic rsMul = Inr out"
  shows "(out_R out \<noteq> Num 0 \<longrightarrow>
            out_body1s_to_earth out = Num 1 / out_earth1s_to_body out \<and>
            out_body1h_to_earth out = Num 3600 / out_R out) \<and>
         (out_R out = Num 0 \<longrightarrow>
            out_body1s_to_earth out = PosInf \<and> out_body1h_to_earth out = PosInf) \<and>
         out_earth1h_to_body out = out_R out * Num 3600"
  using assms
  by (auto simp: App_def Let_def lookup_earth earth1s_to_body_def body1s_to_earth_def
      earth1h_to_body_def body1h_to_earth_def split: option.splits)

text \<open>
  The Earth at its surface has \<open>R = 1\<close>; the neutron star with the exact formula, ten
  kilometres below its surface, is inside its horizon and has \<open>R = 0\<close>.
\<close>

theorem inverse_time_conversions_witness:
  "(\<exists>out. App ''earth'' surface (Num 0) False (Num 2.5) = Inr out \<and> out_R out = Num 1 \<and>
      out_body1s_to_earth out = Num 1 / out_earth1s_to_body out \<and>
      out_body1h_to_earth out = Num 3600 / out_R out \<and>
      out_earth1h_to_body out = out_R out * Num 3600) \<and>
   (\<exists>out. App ''ns'' staticAltitude (Num (- 10)) True (Num 2.5) = Inr out \<and> out_R out = Num 0 \<and>
      out_body1s_to_earth out = PosInf \<and> out_body1h_to_earth out = PosInf)"
proof -
  from App_Inr [OF lookup_earth, of surface "Num 0" False "Num 2.5"]
  obtain e where e: "App ''earth'' surface (Num 0) False (Num 2.5) = Inr e"
    and eR: "out_R e = Num 1"
    by (auto simp: earth_surface_R)
  from App_Inr [OF lookup_ns, of staticAltitude "Num (- 10)" True "Num 2.5"]
  obtain n where n: "App ''ns'' staticAltitude (Num (- 10)) True (Num 2.5) = Inr n"
    and nR: "out_R n = Num 0"
    by (auto simp: ns_inside_R)
  from eR have e0: "out_R e \<noteq> Num 0" by simp
  show ?thesis
    using inverse_time_conversions [OF e] inverse_time_conversions [OF n] e n eR nR e0
    by blast
qed

section \<open>Monotonicity near a black hole\<close>




section \<open>The resolved radial distance\<close>

text \<open>
  Claim C8, as stated, covers every altitude input. The Earth, static at the altitude
  \<open>-6371\<close> km, has the resolved radial distance \<open>0\<close>.
\<close>

theorem resolved_radius_zero_at_negative_altitude:
  "lookup ''earth'' = Some (BODIES ! 0) \<and>
   \<not> Num 0 < App_r (BODIES ! 0) staticAltitude (Num (- 6371)) (Num 2.5)"
  by (simp add: lookup_earth App_r_def isBH_earth) (simp add: BODIES_def)

text \<open>
  Claim C8, amended. For every body with a finite positive mass and radius, every mode,
  and all finite altitude and multiplier inputs, the resolved radial distance is strictly
  greater than \<open>0\<close> exactly when the body is a black hole, or the mode is the surface mode,
  or the radius plus the altitude in metres is positive; so it is for every altitude that
  is not negative.
\<close>

theorem resolved_radius_positive_iff:
  assumes "valid_body body" and "radiusM body = Num \<rho>"
  shows "(Num 0 < App_r body mode (Num a) (Num \<mu>)
            \<longleftrightarrow> isBH body \<or> mode = surface \<or> 0 < \<rho> + a * 1000) \<and>
         (0 \<le> a \<longrightarrow> Num 0 < App_r body mode (Num a) (Num \<mu>))"
proof -
  from assms obtain m where m: "massKg body = Num m" "0 < m" and r: "0 < \<rho>"
    by (auto elim: valid_bodyD)
  have pos: "0 < rs_real m * max \<mu> 1.0001" using rs_real_pos [OF m(2)] by simp
  show ?thesis
  proof (cases "isBH body")
    case True
    then show ?thesis using pos by (simp only: App_r_bh [OF True m(1)] less_number.simps) simp
  next
    case False
    have "0 \<le> a \<Longrightarrow> 0 < \<rho> + a * 1000" using r by (simp add: add_pos_nonneg)
    then show ?thesis using False r assms(2) by (auto simp: App_r_def)
  qed
qed

theorem resolved_radius_positive_iff_witness:
  "valid_body (BODIES ! 0) \<and> radiusM (BODIES ! 0) = Num (6.371 * 10 ^ 6) \<and>
   Num 0 < App_r (BODIES ! 0) circularOrbit (Num 20200) (Num 2.5)"
proof -
  have r: "radiusM (BODIES ! 0) = Num (6.371 * 10 ^ 6)" by (simp add: BODIES_def)
  have a: "(0::real) \<le> 20200" by simp
  show ?thesis
    using resolved_radius_positive_iff [OF valid_earth r, of circularOrbit 20200 "2.5"]
          valid_earth r a
    by blast
qed

section \<open>The hue shift\<close>

text \<open>
  For every finite ratio the hue shift is \<open>sign (R - 1) * min 1 (sqrt |R - 1| * 2e4)\<close>, and
  for every ratio that is a number, the infinities included, it lies in \<open>[-1, 1]\<close>.
\<close>

lemma hueShift_of_numeric_ratio:
  "hueShiftFromRatio (Num \<rho>) = Num (sgn (\<rho> - 1) * min 1 (sqrt \<bar>\<rho> - 1\<bar> * 20000)) \<and>
   (R \<noteq> NaN \<longrightarrow> Num (- 1) \<le> hueShiftFromRatio R \<and> hueShiftFromRatio R \<le> Num 1)"
proof (cases R)
  case (Num x)
  then show ?thesis using hue_real_bounds [of x] by (simp add: hueShift_Num)
next
  case PosInf
  then show ?thesis by (simp add: hueShift_Num hueShift_PosInf)
next
  case NegInf
  then show ?thesis by (simp add: hueShift_Num hueShift_NegInf)
next
  case NaN
  then show ?thesis by (simp add: hueShift_Num)
qed

text \<open>
  Claim C9 says that the hue shift of every ratio lies in \<open>[-1, 1]\<close>, as the comment at the
  return of \<open>hueShiftFromRatio\<close> does. The Earth in a circular orbit at the altitude
  \<open>-7000\<close> km has the radial distance \<open>-629000\<close> m, the orbital speed is the square root of
  a negative value, and the render returns NaN as speed, as ratio and as hue shift.
\<close>

theorem hueShift_nan_below_centre:
  "\<exists>out. App ''earth'' circularOrbit (Num (- 7000)) False (Num 2.5) = Inr out \<and>
     out_r out = Num (- 629000) \<and> out_v out = NaN \<and> out_R out = NaN \<and>
     out_hueShift out = NaN \<and>
     \<not> (Num (- 1) \<le> out_hueShift out \<and> out_hueShift out \<le> Num 1)"
proof -
  have r: "App_r (BODIES ! 0) circularOrbit (Num (- 7000)) (Num 2.5) = Num (- 629000)"
    by (simp add: App_r_def isBH_earth) (simp add: BODIES_def)
  have v: "App_v (BODIES ! 0) circularOrbit (Num (- 629000)) = NaN"
    by (simp add: App_v_def isBH_earth circularOrbitSpeed_def) (simp add: BODIES_def G_def)
  from App_Inr [OF lookup_earth, of circularOrbit "Num (- 7000)" False "Num 2.5"]
  obtain out where out: "App ''earth'' circularOrbit (Num (- 7000)) False (Num 2.5) = Inr out"
    and "out_r out = Num (- 629000)" and "out_v out = NaN"
    and fb: "out_fBody out = NaN"
    and R: "out_R out = App_R (out_fBody out) (out_fEarth out)"
    and h: "out_hueShift out = hueShiftFromRatio (out_R out)"
    unfolding r v fBody_earth_below_centre by blast
  from R fb have Rn: "out_R out = NaN" by (simp add: App_R_def)
  with h have "out_hueShift out = NaN" by (simp add: hueShift_NaN)
  with out \<open>out_r out = Num (- 629000)\<close> \<open>out_v out = NaN\<close> Rn show ?thesis by auto
qed

section \<open>The horizon is out of reach of the black-hole pipeline\<close>

text \<open>
  Claim C10. For every black hole of the catalog and every multiplier, values of at most
  \<open>1\<close> included, a render returns; the resolved radius is at least \<open>1.0001\<close> times the
  Schwarzschild radius; the quantity \<open>x\<close> that \<open>schwarzschildStaticRate\<close> computes is at
  most \<open>1 / 1.0001\<close> and so below \<open>1\<close>; \<open>fBody > 0\<close>, \<open>R > 0\<close>, and the body second in Earth
  seconds is finite.
\<close>

theorem bh_pipeline_never_at_horizon:
  assumes "lookup bodyId = Some body" and "isBH body"
  shows "\<exists>out. App bodyId mode altKm useExactStatic (Num \<mu>) = Inr out \<and>
           schwarzschildRadius (massKg body) * Num 1.0001 \<le> out_r out \<and>
           (Num 2 * G * massKg body) / (out_r out * C * C) \<le> Num (1 / 1.0001) \<and>
           (Num 2 * G * massKg body) / (out_r out * C * C) < Num 1 \<and>
           Num 0 < out_fBody out \<and> Num 0 < out_R out \<and>
           Number_isFinite (out_body1s_to_earth out)"
proof -
  from assms(1) have "valid_body body" by (intro BODIES_valid lookup_mem)
  then obtain m where m: "massKg body = Num m" "0 < m" by (rule valid_bodyD)
  define k :: real where "k = max \<mu> 1.0001"
  have k: "1.0001 \<le> k" "1 < k" "0 < k" "k \<noteq> 0" by (simp_all add: k_def)
  have rs: "0 < rs_real m" by (rule rs_real_pos [OF m(2)])
  from fEarth_pos obtain fe where fe: "App_fEarth (BODIES ! 0) = Num fe" "0 < fe"
    by (cases "App_fEarth (BODIES ! 0)") auto
  define fb :: real where "fb = sqrt (1 - 1 / k)"
  from k have fb: "0 < fb" by (simp add: fb_def)
  from App_Inr [OF assms(1), of mode altKm useExactStatic "Num \<mu>"]
  obtain out where out: "App bodyId mode altKm useExactStatic (Num \<mu>) = Inr out"
    and r: "out_r out = Num (rs_real m * k)"
    and f: "out_fBody out = Num fb"
    and R: "out_R out = App_R (out_fBody out) (App_fEarth (BODIES ! 0))"
    and b: "out_body1s_to_earth out = body1s_to_earth (out_R out)"
    unfolding App_r_bh [OF assms(2) m(1)] fBody_of_bh [OF assms(2) m] k_def fb_def
    by auto
  have nz: "rs_real m * k \<noteq> 0" using rs k by simp
  have x: "(Num 2 * G * massKg body) / (out_r out * C * C) = Num (1 / k)"
    by (simp only: m r code_x_Num [OF nz] horizon_ratio_rs [OF m(2) k(4)])
  have c1: "schwarzschildRadius (massKg body) * Num 1.0001 \<le> out_r out"
    using rs k(1) by (simp add: m r schwarzschildRadius_Num)
  have c2: "(Num 2 * G * massKg body) / (out_r out * C * C) \<le> Num (1 / 1.0001)"
    unfolding x using k by (simp add: field_simps)
  have c3: "(Num 2 * G * massKg body) / (out_r out * C * C) < Num 1"
    unfolding x using k by simp
  have c4: "Num 0 < out_fBody out" using fb by (simp add: f)
  have Rv: "out_R out = Num (fb / fe)" using fe by (simp add: R f App_R_def)
  have c5: "Num 0 < out_R out" using fb fe by (simp add: Rv)
  have c6: "Number_isFinite (out_body1s_to_earth out)"
    using fb fe by (simp add: b Rv body1s_to_earth_def)
  from out c1 c2 c3 c4 c5 c6 show ?thesis by blast
qed

theorem bh_pipeline_never_at_horizon_witness:
  "\<exists>out. App ''bh10'' staticAltitude (Num 0) True (Num 0.5) = Inr out \<and>
           schwarzschildRadius (massKg (BODIES ! 9)) * Num 1.0001 \<le> out_r out \<and>
           (Num 2 * G * massKg (BODIES ! 9)) / (out_r out * C * C) \<le> Num (1 / 1.0001) \<and>
           (Num 2 * G * massKg (BODIES ! 9)) / (out_r out * C * C) < Num 1 \<and>
           Num 0 < out_fBody out \<and> Num 0 < out_R out \<and>
           Number_isFinite (out_body1s_to_earth out)"
  by (rule bh_pipeline_never_at_horizon [OF lookup_bh10 isBH_bh10])

end
